theory Spec2Isabelle
  imports Main
begin

section \<open>Shared types (src/types.ts)\<close>

text \<open>
  JavaScript strings are modelled as \<open>string\<close>; \<open>null\<close> and \<open>undefined\<close> are \<open>None\<close>.
  A string is falsy exactly when it is empty, so a nullable string is truthy when it is
  \<open>Some t\<close> with \<open>t\<close> non-empty.
\<close>

record EditorContext =
  error :: "string option"
  lastGeneratedText :: "string option"

datatype EditorEvent = GENERATE string | RETRY | RESET

definition truthy :: "string option \<Rightarrow> bool" where
  "truthy v = (case v of None \<Rightarrow> False | Some t \<Rightarrow> t \<noteq> [])"

section \<open>The continuation service (generateContinuation)\<close>

text \<open>
  A value thrown in JavaScript is either an instance of \<open>Error\<close>, which has a message, or
  some other value. The provider call \<open>ai.models.generateContent\<close> either returns a
  response, whose \<open>text\<close> may be absent, or throws.
\<close>

datatype thrown = ErrorInstance string | NotAnError

datatype provider_result = Responded "string option" | Threw thrown

definition prompt :: "string \<Rightarrow> string" where
  "prompt currentText =
     ''You are a helpful writing assistant. Continue the following text naturally. '' @
     ''Maintain the tone and style of the existing text. Do not repeat the last sentence provided. '' @
     ''Just provide the continuation text immediately without any conversational filler.'' @
     [CHR 0x0A, CHR 0x0A] @ ''---'' @ [CHR 0x0A] @ currentText @ [CHR 0x0A] @ ''---''"

text \<open>
  \<open>generateContinuation\<close> awaits the provider on the prompt, throws a fresh \<open>Error\<close> when the
  response text is falsy, and rethrows whatever it caught (after logging it). The result
  is the settled promise: \<open>Inl\<close> a rejection, \<open>Inr\<close> the text it resolved with.
\<close>

definition generateContinuation :: "(string \<Rightarrow> provider_result) \<Rightarrow> string \<Rightarrow> thrown + string" where
  "generateContinuation generateContent currentText =
     (case generateContent (prompt currentText) of
        Threw e \<Rightarrow> Inl e
      | Responded text \<Rightarrow>
          (case text of
             None \<Rightarrow> Inl (ErrorInstance ''No text generated from Gemini.'')
           | Some t \<Rightarrow>
               if \<not> truthy (Some t) then Inl (ErrorInstance ''No text generated from Gemini.'')
               else Inr t))"

section \<open>The editor machine (editorMachine)\<close>

datatype state_value = idle | generating | failure

text \<open>
  Besides the events of \<open>EditorEvent\<close>, the machine receives the two events of its invoked
  promise actor: done, carrying the output, and error, carrying the thrown value.
\<close>

datatype machine_event = User EditorEvent | DoneActor string | ErrorActor thrown

text \<open>
  A snapshot of the machine: the state value, the context, and the inputs of the invoked
  \<open>generateText\<close> actors that are running.
\<close>

record machine =
  svalue :: state_value
  scontext :: EditorContext
  children :: "string list"

definition setError :: "EditorContext \<Rightarrow> thrown \<Rightarrow> EditorContext" where
  "setError c e =
     c\<lparr>error := Some (case e of ErrorInstance m \<Rightarrow> m | NotAnError \<Rightarrow> ''An unknown error occurred'')\<rparr>"

definition clearError :: "EditorContext \<Rightarrow> EditorContext" where
  "clearError c = c\<lparr>error := None\<rparr>"

definition setLastGenerated :: "EditorContext \<Rightarrow> string \<Rightarrow> EditorContext" where
  "setLastGenerated c out = c\<lparr>lastGeneratedText := Some out, error := None\<rparr>"

text \<open>The input of the invoked actor: \<open>event.currentText || ''\<close>.\<close>

definition invokeInput :: "machine_event \<Rightarrow> string" where
  "invokeInput ev =
     (case ev of
        User (GENERATE t) \<Rightarrow> if truthy (Some t) then t else []
      | _ \<Rightarrow> [])"

text \<open>
  Entering \<open>generating\<close> runs the transition's action and then starts the invoked actor;
  leaving it stops that actor. An event with no handler in the current state leaves the
  snapshot as it is.
\<close>

fun onEvent :: "state_value \<Rightarrow> machine_event \<Rightarrow> machine \<Rightarrow> machine" where
  "onEvent idle (User (GENERATE t)) m =
     \<lparr>svalue = generating, scontext = clearError (scontext m),
      children = children m @ [invokeInput (User (GENERATE t))]\<rparr>"
| "onEvent generating (DoneActor out) m =
     \<lparr>svalue = idle, scontext = setLastGenerated (scontext m) out, children = []\<rparr>"
| "onEvent generating (ErrorActor e) m =
     \<lparr>svalue = failure, scontext = setError (scontext m) e, children = []\<rparr>"
| "onEvent failure (User RETRY) m =
     \<lparr>svalue = idle, scontext = clearError (scontext m), children = children m\<rparr>"
| "onEvent failure (User (GENERATE t)) m =
     \<lparr>svalue = generating, scontext = clearError (scontext m),
      children = children m @ [invokeInput (User (GENERATE t))]\<rparr>"
| "onEvent _ _ m = m"

definition transition :: "machine \<Rightarrow> machine_event \<Rightarrow> machine" where
  "transition m ev = onEvent (svalue m) ev m"

definition initialMachine :: machine where
  "initialMachine =
     \<lparr>svalue = idle, scontext = \<lparr>error = None, lastGeneratedText = None\<rparr>, children = []\<rparr>"

text \<open>
  The promise actor \<open>generateText\<close> of the machine awaits \<open>generateContinuation\<close> on its
  input; when the promise settles the machine receives the done event with the output, or
  the error event with the rejection.
\<close>

definition generateText :: "(string \<Rightarrow> provider_result) \<Rightarrow> string \<Rightarrow> machine_event" where
  "generateText generateContent currentText =
     (case generateContinuation generateContent currentText of
        Inl e \<Rightarrow> ErrorActor e
      | Inr result \<Rightarrow> DoneActor result)"

text \<open>
  What happens to the running machine: the application sends it an event, or the provider
  call of the running actor comes back and the actor settles.
\<close>

datatype input = Send EditorEvent | Settled provider_result

fun step :: "machine \<Rightarrow> input \<Rightarrow> machine" where
  "step m (Send e) = transition m (User e)"
| "step m (Settled r) =
     (case children m of
        [] \<Rightarrow> m
      | currentText # _ \<Rightarrow> transition m (generateText (\<lambda>_. r) currentText))"

definition stateAfter :: "input list \<Rightarrow> machine" where
  "stateAfter xs = foldl step initialMachine xs"

text \<open>The snapshots the machine goes through, the starting one first.\<close>

fun run :: "machine \<Rightarrow> input list \<Rightarrow> machine list" where
  "run m [] = [m]"
| "run m (x # xs) = m # run (step m x) xs"

section \<open>The document surface (ProseMirrorEditor)\<close>

text \<open>
  A document is a tree of nodes; \<open>getContent\<close> visits every descendant of the document in
  order, appends the text of a text node and a line feed for a paragraph, and trims the
  result. Characters are Latin-1 code units, so the white space that \<open>trim\<close> strips is
  the part of JavaScript's white space below 256.
\<close>

datatype node = TextNode string | ParagraphNode "node list" | OtherNode "node list"

fun descendantsText :: "node \<Rightarrow> string" where
  "descendantsText (TextNode t) = t"
| "descendantsText (ParagraphNode cs) = CHR 0x0A # concat (map descendantsText cs)"
| "descendantsText (OtherNode cs) = concat (map descendantsText cs)"

definition isWhiteSpace :: "char \<Rightarrow> bool" where
  "isWhiteSpace c =
     (c \<in> set [CHR 0x09, CHR 0x0A, CHR 0x0B, CHR 0x0C, CHR 0x0D, CHR 0x20, CHR 0xA0])"

definition trim :: "string \<Rightarrow> string" where
  "trim s = rev (dropWhile isWhiteSpace (rev (dropWhile isWhiteSpace s)))"

text \<open>The handle closes over \<open>viewRef\<close>, which holds the document once the view is mounted.\<close>

record EditorHandle =
  viewRef :: "node list option"

definition getContent :: "EditorHandle \<Rightarrow> string" where
  "getContent h =
     (case viewRef h of
        None \<Rightarrow> []
      | Some doc \<Rightarrow> trim (concat (map descendantsText doc)))"

section \<open>The application (App)\<close>

text \<open>
  The effect that watches the machine: it compares the state value it saw last with the
  new snapshot, calls \<open>insertContent\<close> on the editor handle (if \<open>editorRef\<close> holds one) with
  the generated text when the machine has just come back from \<open>generating\<close> to \<open>idle\<close> and
  the text is truthy, and remembers the new state value. The result is the argument of the
  \<open>insertContent\<close> call, if there is one, and the new \<open>previousStateValue\<close>.
\<close>

definition syncEffect ::
  "EditorHandle option \<Rightarrow> state_value \<Rightarrow> machine \<Rightarrow> string option \<times> state_value" where
  "syncEffect editorRef previousStateValue state =
     (let wasGenerating = (previousStateValue = generating);
          isIdle = (svalue state = idle)
      in (if wasGenerating \<and> isIdle \<and> truthy (lastGeneratedText (scontext state))
          then (case editorRef of
                  None \<Rightarrow> None
                | Some h \<Rightarrow> lastGeneratedText (scontext state))
          else None,
          svalue state))"

text \<open>The effect run on each observed snapshot in turn: the calls it makes, one entry per snapshot.\<close>

fun bridge ::
  "EditorHandle option \<Rightarrow> state_value \<Rightarrow> machine list \<Rightarrow> string option list" where
  "bridge editorRef previousStateValue [] = []"
| "bridge editorRef previousStateValue (s # ss) =
     fst (syncEffect editorRef previousStateValue s) #
     bridge editorRef (snd (syncEffect editorRef previousStateValue s)) ss"

text \<open>
  The snapshots the application observes, from the first render on, and the calls of
  \<open>insertContent\<close> the effect makes on them, on the handle \<open>h\<close> that the mounted editor has
  put into \<open>editorRef\<close>; \<open>previousStateValue\<close> starts as the state value of the first
  render.
\<close>

definition observed :: "input list \<Rightarrow> machine list" where
  "observed xs = run initialMachine xs"

definition insertions :: "EditorHandle \<Rightarrow> input list \<Rightarrow> string option list" where
  "insertions h xs = bridge (Some h) (svalue initialMachine) (observed xs)"

text \<open>
  The click handler of the button: nothing without an editor, an alert when the trimmed
  content is empty, the GENERATE event with the content otherwise.
\<close>

datatype click_result = NoEditor | Alert string | Sent EditorEvent

definition handleContinueWriting :: "EditorHandle option \<Rightarrow> click_result" where
  "handleContinueWriting editorRef =
     (case editorRef of
        None \<Rightarrow> NoEditor
      | Some h \<Rightarrow>
          (let currentText = getContent h
           in if trim currentText = []
              then Alert ''Please type something first so the AI has context!''
              else Sent (GENERATE currentText)))"

definition clickContinueWriting :: "machine \<Rightarrow> EditorHandle option \<Rightarrow> machine" where
  "clickContinueWriting m editorRef =
     (case handleContinueWriting editorRef of
        Sent e \<Rightarrow> transition m (User e)
      | _ \<Rightarrow> m)"

section \<open>Invariant of the running machine\<close>

definition wellFormed :: "machine \<Rightarrow> bool" where
  "wellFormed m =
     (((error (scontext m) \<noteq> None) = (svalue m = failure)) \<and>
      lastGeneratedText (scontext m) \<noteq> Some [] \<and>
      (if svalue m = generating then length (children m) = 1 else children m = []))"

section \<open>Auxiliary facts\<close>

lemma generateContinuation_nonempty: "generateContinuation ai cur \<noteq> Inr []"
  by (simp add: generateContinuation_def truthy_def split: provider_result.splits option.splits)

lemma wellFormed_initial: "wellFormed initialMachine"
  by (simp add: wellFormed_def initialMachine_def)

lemma wellFormed_send: "wellFormed m \<Longrightarrow> wellFormed (transition m (User e))"
  by (cases "svalue m"; cases e)
     (simp_all add: wellFormed_def transition_def clearError_def)

lemma wellFormed_settle:
  "wellFormed m \<Longrightarrow> out \<noteq> [] \<Longrightarrow> wellFormed (transition m (DoneActor out))"
  by (cases "svalue m") (simp_all add: wellFormed_def transition_def setLastGenerated_def)

lemma wellFormed_error: "wellFormed m \<Longrightarrow> wellFormed (transition m (ErrorActor e))"
  by (cases "svalue m") (simp_all add: wellFormed_def transition_def setError_def)

lemma wellFormed_generateText:
  "wellFormed m \<Longrightarrow> wellFormed (transition m (generateText ai cur))"
proof (cases "generateContinuation ai cur")
  case (Inl e)
  assume "wellFormed m"
  then show ?thesis using Inl by (simp add: generateText_def wellFormed_error)
next
  case (Inr out)
  assume wf: "wellFormed m"
  from Inr have "out \<noteq> []" using generateContinuation_nonempty [of ai cur] by auto
  with wf show ?thesis using Inr by (simp add: generateText_def wellFormed_settle)
qed

lemma wellFormed_step: "wellFormed m \<Longrightarrow> wellFormed (step m x)"
  by (cases x) (simp_all add: wellFormed_send wellFormed_generateText split: list.splits)

lemma wellFormed_foldl: "wellFormed m \<Longrightarrow> wellFormed (foldl step m xs)"
  by (induction xs arbitrary: m) (simp_all add: wellFormed_step)

lemma wellFormed_stateAfter: "wellFormed (stateAfter xs)"
  by (simp add: stateAfter_def wellFormed_foldl wellFormed_initial)

lemma wellFormed_run: "wellFormed m \<Longrightarrow> s \<in> set (run m xs) \<Longrightarrow> wellFormed s"
  by (induction xs arbitrary: m) (auto intro: wellFormed_step)

lemma snd_syncEffect: "snd (syncEffect editorRef prev s) = svalue s"
  by (simp add: syncEffect_def)

lemma bridge_nth:
  "i < length ss \<Longrightarrow>
     bridge editorRef prev ss ! i =
       fst (syncEffect editorRef (if i = 0 then prev else svalue (ss ! (i - 1))) (ss ! i))"
proof (induction ss arbitrary: prev i)
  case Nil
  then show ?case by simp
next
  case (Cons s ss)
  show ?case
  proof (cases i)
    case 0
    then show ?thesis by simp
  next
    case (Suc j)
    with Cons.prems have "j < length ss" by simp
    from Cons.IH [OF this, of "svalue s"] Suc show ?thesis
      by (cases j) (simp_all add: snd_syncEffect)
  qed
qed

lemma trim_prefix: "\<exists>k. rev (dropWhile P (rev t)) = take k t"
  by (metis dropWhile_eq_drop rev_drop rev_swap length_rev)

lemma dropWhile_trimmed:
  "dropWhile isWhiteSpace (trim s) = trim s"
proof (cases "trim s")
  case Nil
  then show ?thesis by simp
next
  case (Cons c cs)
  let ?t = "dropWhile isWhiteSpace s"
  obtain k where k: "trim s = take k ?t"
    using trim_prefix [of isWhiteSpace ?t] by (auto simp: trim_def)
  with Cons have "take k ?t \<noteq> []" by simp
  then have "?t \<noteq> []" and "0 < k" by (cases k; simp)+
  then have "hd (trim s) = hd ?t" using k by simp
  moreover have "\<not> isWhiteSpace (hd ?t)" using \<open>?t \<noteq> []\<close> by (rule hd_dropWhile)
  ultimately have "\<not> isWhiteSpace c" using Cons by simp
  then show ?thesis using Cons by simp
qed

lemma trim_idem: "trim (trim s) = trim s"
proof -
  have "trim (trim s) = rev (dropWhile isWhiteSpace (rev (trim s)))"
    by (simp add: trim_def [of "trim s"] dropWhile_trimmed)
  also have "\<dots> = trim s" by (simp add: trim_def)
  finally show ?thesis .
qed

lemma syncEffect_inserts:
  "(fst (syncEffect editorRef p s) \<noteq> None) =
     (editorRef \<noteq> None \<and> p = generating \<and> svalue s = idle \<and>
      truthy (lastGeneratedText (scontext s)))"
  by (auto simp: syncEffect_def truthy_def split: option.splits)

lemma syncEffect_text:
  "fst (syncEffect editorRef p s) \<noteq> None \<Longrightarrow>
     fst (syncEffect editorRef p s) = lastGeneratedText (scontext s)"
  by (simp add: syncEffect_def split: if_splits option.splits)

lemma truthy_not_None: "truthy v \<Longrightarrow> v \<noteq> None"
  by (cases v) (simp_all add: truthy_def)

lemma wellFormed_truthy:
  "wellFormed s \<Longrightarrow>
     truthy (lastGeneratedText (scontext s)) = (lastGeneratedText (scontext s) \<noteq> None)"
  by (cases "lastGeneratedText (scontext s)") (simp_all add: wellFormed_def truthy_def)

lemma wellFormed_observed: "i < length (observed xs) \<Longrightarrow> wellFormed (observed xs ! i)"
  unfolding observed_def by (rule wellFormed_run [OF wellFormed_initial nth_mem])

section \<open>Properties of the application and the machine\<close>

text \<open>
  C1: the effect calls \<open>insertContent\<close> exactly on the success edge. Along every run of the
  machine from its initial state, with the effect run on each snapshot in turn and the
  editor mounted, the call happens at snapshot \<open>i\<close> if and only if the snapshot before it was \<open>generating\<close>, snapshot
  \<open>i\<close> is \<open>idle\<close> and its lastGeneratedText is not null, and the text passed is that
  lastGeneratedText. On any sequence of snapshots whatever, and any starting value of
  \<open>previousStateValue\<close>, a call at position \<open>j\<close> sits on a step from \<open>generating\<close> to \<open>idle\<close>
  with a non-null text; so a second call needs a second such step. No call is made when
  the new state is \<open>failure\<close>, nor when the previous state was \<open>idle\<close> or \<open>failure\<close>.
\<close>

theorem sync_bridge_inserts_on_success_edge:
  "(i < length (observed xs) \<longrightarrow>
      ((insertions h xs ! i \<noteq> None) =
         (0 < i \<and> svalue (observed xs ! (i - 1)) = generating \<and> svalue (observed xs ! i) = idle \<and>
          lastGeneratedText (scontext (observed xs ! i)) \<noteq> None)) \<and>
      (insertions h xs ! i \<noteq> None \<longrightarrow>
         insertions h xs ! i = lastGeneratedText (scontext (observed xs ! i)))) \<and>
   (j < length ss \<longrightarrow> bridge editorRef prev ss ! j \<noteq> None \<longrightarrow>
      (if j = 0 then prev else svalue (ss ! (j - 1))) = generating \<and> svalue (ss ! j) = idle \<and>
      lastGeneratedText (scontext (ss ! j)) \<noteq> None \<and>
      bridge editorRef prev ss ! j = lastGeneratedText (scontext (ss ! j))) \<and>
   (svalue s = failure \<or> p = idle \<or> p = failure \<longrightarrow> fst (syncEffect editorRef p s) = None)"
proof (intro conjI impI)
  assume i: "i < length (observed xs)"
  let ?s = "observed xs ! i"
  let ?p = "if i = 0 then svalue initialMachine else svalue (observed xs ! (i - 1))"
  have ins: "insertions h xs ! i = fst (syncEffect (Some h) ?p ?s)"
    unfolding insertions_def using i by (rule bridge_nth)
  have "truthy (lastGeneratedText (scontext ?s)) = (lastGeneratedText (scontext ?s) \<noteq> None)"
    using i by (intro wellFormed_truthy wellFormed_observed)
  then show "(insertions h xs ! i \<noteq> None) =
      (0 < i \<and> svalue (observed xs ! (i - 1)) = generating \<and> svalue ?s = idle \<and>
       lastGeneratedText (scontext ?s) \<noteq> None)"
    unfolding ins syncEffect_inserts by (cases i) (simp_all add: initialMachine_def)
  show "insertions h xs ! i = lastGeneratedText (scontext ?s)" if "insertions h xs ! i \<noteq> None"
    using that unfolding ins by (rule syncEffect_text)
next
  assume j: "j < length ss" and call: "bridge editorRef prev ss ! j \<noteq> None"
  let ?p = "if j = 0 then prev else svalue (ss ! (j - 1))"
  have ins: "bridge editorRef prev ss ! j = fst (syncEffect editorRef ?p (ss ! j))"
    using j by (rule bridge_nth)
  from call have edge: "editorRef \<noteq> None \<and> ?p = generating \<and> svalue (ss ! j) = idle \<and>
      truthy (lastGeneratedText (scontext (ss ! j)))"
    unfolding ins syncEffect_inserts .
  from edge show "?p = generating" by simp
  from edge show "svalue (ss ! j) = idle" by simp
  from edge show "lastGeneratedText (scontext (ss ! j)) \<noteq> None" by (simp add: truthy_not_None)
  from call show "bridge editorRef prev ss ! j = lastGeneratedText (scontext (ss ! j))"
    unfolding ins by (rule syncEffect_text)
next
  assume "svalue s = failure \<or> p = idle \<or> p = failure"
  then show "fst (syncEffect editorRef p s) = None" by (auto simp: syncEffect_def)
qed

theorem sync_bridge_inserts_on_success_edge_witness:
  "2 < length (observed [Send (GENERATE ''The sky was''),
                         Settled (Responded (Some '' turning orange.'')), Send RETRY]) \<and>
   insertions \<lparr>viewRef = Some []\<rparr>
              [Send (GENERATE ''The sky was''),
               Settled (Responded (Some '' turning orange.'')), Send RETRY] =
     [None, None, Some '' turning orange.'', None] \<and>
   (0::nat) < length [\<lparr>svalue = idle, scontext = \<lparr>error = None, lastGeneratedText = Some ''x''\<rparr>,
                      children = []\<rparr>] \<and>
   bridge (Some \<lparr>viewRef = None\<rparr>) generating
     [\<lparr>svalue = idle, scontext = \<lparr>error = None, lastGeneratedText = Some ''x''\<rparr>,
       children = []\<rparr>] ! 0 = Some ''x'' \<and>
   fst (syncEffect (Some \<lparr>viewRef = None\<rparr>) idle
     \<lparr>svalue = idle, scontext = \<lparr>error = None, lastGeneratedText = Some ''x''\<rparr>,
       children = []\<rparr>) = None"
  using sync_bridge_inserts_on_success_edge
    [of 2 "[Send (GENERATE ''The sky was''),
            Settled (Responded (Some '' turning orange.'')), Send RETRY]"
        "\<lparr>viewRef = Some []\<rparr>"
        0 "[\<lparr>svalue = idle, scontext = \<lparr>error = None, lastGeneratedText = Some ''x''\<rparr>,
            children = []\<rparr>]" "Some \<lparr>viewRef = None\<rparr>" generating
        "\<lparr>svalue = idle, scontext = \<lparr>error = None, lastGeneratedText = Some ''x''\<rparr>,
            children = []\<rparr>" idle]
  by (simp add: observed_def insertions_def initialMachine_def transition_def clearError_def
      setLastGenerated_def invokeInput_def truthy_def generateText_def generateContinuation_def
      syncEffect_def)

text \<open>
  C2: when the invoked actor is done with output \<open>t\<close>, the machine goes from \<open>generating\<close> to
  \<open>idle\<close>, and the context has error = null and lastGeneratedText = \<open>t\<close>, whatever it held
  before.
\<close>

theorem done_sets_text_clears_error:
  "transition \<lparr>svalue = generating, scontext = c, children = k\<rparr> (DoneActor t) =
     \<lparr>svalue = idle, scontext = \<lparr>error = None, lastGeneratedText = Some t\<rparr>, children = []\<rparr>"
  by (simp add: transition_def setLastGenerated_def)

text \<open>
  C3: when the invoked actor fails, the machine goes from \<open>generating\<close> to \<open>failure\<close>; error
  is the message of the thrown \<open>Error\<close>, or the fixed string "An unknown error occurred"
  when the thrown value is not an \<open>Error\<close>; lastGeneratedText is left as it was. Over the
  whole attempt, from the GENERATE that started it in \<open>idle\<close> or \<open>failure\<close> to the failure,
  lastGeneratedText keeps the value it had before the attempt.
\<close>

theorem failure_sets_error_keeps_text:
  "transition \<lparr>svalue = generating, scontext = c, children = k\<rparr> (ErrorActor (ErrorInstance msg)) =
     \<lparr>svalue = failure, scontext = \<lparr>error = Some msg, lastGeneratedText = lastGeneratedText c\<rparr>,
      children = []\<rparr> \<and>
   transition \<lparr>svalue = generating, scontext = c, children = k\<rparr> (ErrorActor NotAnError) =
     \<lparr>svalue = failure,
      scontext = \<lparr>error = Some ''An unknown error occurred'', lastGeneratedText = lastGeneratedText c\<rparr>,
      children = []\<rparr> \<and>
   (svalue m \<noteq> generating \<longrightarrow>
      svalue (transition m (User (GENERATE cur))) = generating \<and>
      svalue (transition (transition m (User (GENERATE cur))) (ErrorActor e)) = failure \<and>
      lastGeneratedText (scontext (transition (transition m (User (GENERATE cur))) (ErrorActor e))) =
        lastGeneratedText (scontext m))"
  by (cases "svalue m") (simp_all add: transition_def setError_def clearError_def)

theorem failure_sets_error_keeps_text_witness:
  "svalue initialMachine \<noteq> generating \<and>
   transition (transition initialMachine (User (GENERATE ''The sky was'')))
     (ErrorActor (ErrorInstance ''rate limited'')) =
     \<lparr>svalue = failure, scontext = \<lparr>error = Some ''rate limited'', lastGeneratedText = None\<rparr>,
      children = []\<rparr>"
  using failure_sets_error_keeps_text
    [of "\<lparr>error = None, lastGeneratedText = None\<rparr>" "[''The sky was'']" "''rate limited''"
        initialMachine "''The sky was''" "ErrorInstance ''rate limited''"]
  by (simp add: initialMachine_def transition_def clearError_def invokeInput_def truthy_def)

text \<open>
  C4: GENERATE is handled in \<open>idle\<close> and in \<open>failure\<close> only. Sent while the machine is
  \<open>generating\<close> it changes nothing: not the state value, not the context, and no second
  actor is started. Hence in every state the running machine reaches at most one
  \<open>generateText\<close> actor is running, and one is running exactly when the state is
  \<open>generating\<close>.
\<close>

theorem generate_only_from_idle_or_failure:
  "transition \<lparr>svalue = generating, scontext = c, children = k\<rparr> (User (GENERATE t)) =
     \<lparr>svalue = generating, scontext = c, children = k\<rparr> \<and>
   transition \<lparr>svalue = idle, scontext = c, children = k\<rparr> (User (GENERATE t)) =
     \<lparr>svalue = generating, scontext = \<lparr>error = None, lastGeneratedText = lastGeneratedText c\<rparr>,
      children = k @ [t]\<rparr> \<and>
   (transition m (User (GENERATE t)) \<noteq> m \<longrightarrow> svalue m = idle \<or> svalue m = failure) \<and>
   length (children (stateAfter xs)) \<le> 1 \<and>
   ((children (stateAfter xs) \<noteq> []) = (svalue (stateAfter xs) = generating))"
proof -
  have "wellFormed (stateAfter xs)" by (rule wellFormed_stateAfter)
  then have "length (children (stateAfter xs)) \<le> 1 \<and>
    ((children (stateAfter xs) \<noteq> []) = (svalue (stateAfter xs) = generating))"
    by (auto simp: wellFormed_def split: if_splits)
  moreover have "transition m (User (GENERATE t)) \<noteq> m \<longrightarrow> svalue m = idle \<or> svalue m = failure"
    by (cases "svalue m") (simp_all add: transition_def)
  ultimately show ?thesis
    by (simp add: transition_def clearError_def invokeInput_def truthy_def)
qed

theorem generate_only_from_idle_or_failure_witness:
  "transition initialMachine (User (GENERATE ''a'')) \<noteq> initialMachine \<and>
   svalue initialMachine = idle \<and>
   stateAfter [Send (GENERATE ''a''), Send (GENERATE ''b'')] =
     \<lparr>svalue = generating, scontext = \<lparr>error = None, lastGeneratedText = None\<rparr>, children = [''a'']\<rparr>"
  using generate_only_from_idle_or_failure
    [of "\<lparr>error = None, lastGeneratedText = None\<rparr>" "[''a'']" "''a''" initialMachine
        "[Send (GENERATE ''a''), Send (GENERATE ''b'')]"]
  by (simp add: stateAfter_def initialMachine_def transition_def clearError_def invokeInput_def
      truthy_def)

text \<open>
  C5: for a document whose text is empty after trimming, \<open>handleContinueWriting\<close> alerts and
  sends nothing, so the machine (state, context, running actors) is unchanged; for a
  document whose trimmed text is not empty it sends GENERATE carrying that trimmed text.
  Without a mounted view or editor nothing is sent either.
\<close>

theorem continue_writing_validates_text:
  "(trim (concat (map descendantsText docE)) = [] \<longrightarrow>
      handleContinueWriting (Some \<lparr>viewRef = Some docE\<rparr>) =
        Alert ''Please type something first so the AI has context!'' \<and>
      clickContinueWriting m (Some \<lparr>viewRef = Some docE\<rparr>) = m) \<and>
   (trim (concat (map descendantsText docN)) \<noteq> [] \<longrightarrow>
      handleContinueWriting (Some \<lparr>viewRef = Some docN\<rparr>) =
        Sent (GENERATE (trim (concat (map descendantsText docN)))) \<and>
      clickContinueWriting m (Some \<lparr>viewRef = Some docN\<rparr>) =
        transition m (User (GENERATE (trim (concat (map descendantsText docN)))))) \<and>
   clickContinueWriting m (Some \<lparr>viewRef = None\<rparr>) = m \<and>
   clickContinueWriting m None = m"
  by (simp add: clickContinueWriting_def handleContinueWriting_def getContent_def trim_idem)
     (simp add: trim_def)

theorem continue_writing_validates_text_witness:
  "trim (concat (map descendantsText [ParagraphNode [TextNode ''  '']])) = [] \<and>
   clickContinueWriting initialMachine (Some \<lparr>viewRef = Some [ParagraphNode [TextNode ''  '']]\<rparr>) =
     initialMachine \<and>
   trim (concat (map descendantsText [ParagraphNode [TextNode ''The sky was '']])) \<noteq> [] \<and>
   clickContinueWriting initialMachine
       (Some \<lparr>viewRef = Some [ParagraphNode [TextNode ''The sky was '']]\<rparr>) =
     \<lparr>svalue = generating, scontext = \<lparr>error = None, lastGeneratedText = None\<rparr>,
      children = [''The sky was'']\<rparr>"
  using continue_writing_validates_text
    [of "[ParagraphNode [TextNode ''  '']]" initialMachine
        "[ParagraphNode [TextNode ''The sky was '']]"]
  by (simp add: trim_def isWhiteSpace_def initialMachine_def transition_def clearError_def
      invokeInput_def truthy_def)

text \<open>
  C6: \<open>generateContinuation\<close> never resolves with the empty string; when the response of the
  provider has no text, or the empty text, it rejects with the error "No text generated
  from Gemini.", and the actor reports that error to the machine.
\<close>

theorem empty_response_is_failure:
  "generateContinuation generateContent cur \<noteq> Inr [] \<and>
   (generateContent (prompt cur) = Responded None \<or> generateContent (prompt cur) = Responded (Some [])
      \<longrightarrow> generateContinuation generateContent cur = Inl (ErrorInstance ''No text generated from Gemini.'') \<and>
          generateText generateContent cur = ErrorActor (ErrorInstance ''No text generated from Gemini.''))"
  by (auto simp: generateContinuation_def generateText_def truthy_def
      split: provider_result.splits option.splits)

theorem empty_response_is_failure_witness:
  "(\<lambda>_. Responded (Some [])) (prompt ''The sky was'') = Responded (Some []) \<and>
   generateContinuation (\<lambda>_. Responded (Some [])) ''The sky was'' =
     Inl (ErrorInstance ''No text generated from Gemini.'')"
  using empty_response_is_failure [of "\<lambda>_. Responded (Some [])" "''The sky was''"]
  by simp

text \<open>
  C7: in \<open>failure\<close>, RETRY clears error and goes to \<open>idle\<close> without starting an actor;
  GENERATE clears error and goes straight to \<open>generating\<close>, starting the actor on the text
  of the event.
\<close>

theorem failure_retry_and_generate:
  "transition \<lparr>svalue = failure, scontext = c, children = k\<rparr> (User RETRY) =
     \<lparr>svalue = idle, scontext = \<lparr>error = None, lastGeneratedText = lastGeneratedText c\<rparr>,
      children = k\<rparr> \<and>
   transition \<lparr>svalue = failure, scontext = c, children = k\<rparr> (User (GENERATE t)) =
     \<lparr>svalue = generating, scontext = \<lparr>error = None, lastGeneratedText = lastGeneratedText c\<rparr>,
      children = k @ [t]\<rparr>"
  by (simp add: transition_def clearError_def invokeInput_def truthy_def)

text \<open>
  C8: in every state the running machine reaches whose error is null, RETRY leaves the
  snapshot (state value, context, running actors) as it is. In \<open>idle\<close> and \<open>generating\<close>
  this holds for every context; \<open>failure\<close> is never reached with a null error.
\<close>

theorem retry_without_error_is_noop:
  "(error (scontext (stateAfter xs)) = None \<longrightarrow>
      transition (stateAfter xs) (User RETRY) = stateAfter xs) \<and>
   transition \<lparr>svalue = idle, scontext = c, children = k\<rparr> (User RETRY) =
     \<lparr>svalue = idle, scontext = c, children = k\<rparr> \<and>
   transition \<lparr>svalue = generating, scontext = c, children = k\<rparr> (User RETRY) =
     \<lparr>svalue = generating, scontext = c, children = k\<rparr>"
proof -
  have "wellFormed (stateAfter xs)" by (rule wellFormed_stateAfter)
  then have "error (scontext (stateAfter xs)) = None \<longrightarrow> svalue (stateAfter xs) \<noteq> failure"
    by (auto simp: wellFormed_def)
  then have "error (scontext (stateAfter xs)) = None \<longrightarrow>
      transition (stateAfter xs) (User RETRY) = stateAfter xs"
    by (cases "svalue (stateAfter xs)") (auto simp: transition_def)
  then show ?thesis by (simp add: transition_def)
qed

theorem retry_without_error_is_noop_witness:
  "error (scontext (stateAfter [Send (GENERATE ''a''), Settled (Threw NotAnError), Send RETRY])) = None \<and>
   transition (stateAfter [Send (GENERATE ''a''), Settled (Threw NotAnError), Send RETRY]) (User RETRY) =
     \<lparr>svalue = idle, scontext = \<lparr>error = None, lastGeneratedText = None\<rparr>, children = []\<rparr>"
  using retry_without_error_is_noop
    [of "[Send (GENERATE ''a''), Settled (Threw NotAnError), Send RETRY]"]
  by (simp add: stateAfter_def initialMachine_def transition_def clearError_def setError_def
      invokeInput_def truthy_def generateText_def generateContinuation_def)

text \<open>
  C9: the success action assigns lastGeneratedText and clears error in one assignment;
  the failure action sets error and leaves lastGeneratedText untouched, as does
  clearError. So no transition of the machine, from any snapshot and on any event, both
  changes lastGeneratedText and leaves an error set.
\<close>

theorem success_and_failure_actions_disjoint:
  "setLastGenerated c t = \<lparr>error = None, lastGeneratedText = Some t\<rparr> \<and>
   lastGeneratedText (setError c e) = lastGeneratedText c \<and> error (setError c e) \<noteq> None \<and>
   lastGeneratedText (clearError c) = lastGeneratedText c \<and>
   (error (scontext (transition m ev)) = None \<or>
    lastGeneratedText (scontext (transition m ev)) = lastGeneratedText (scontext m))"
proof -
  have "error (scontext (transition m ev)) = None \<or>
    lastGeneratedText (scontext (transition m ev)) = lastGeneratedText (scontext m)"
    unfolding transition_def
    by (induction "svalue m" ev m rule: onEvent.induct)
       (simp_all add: setLastGenerated_def setError_def clearError_def)
  then show ?thesis by (simp add: setLastGenerated_def setError_def clearError_def)
qed

text \<open>
  C10: the event type declares RESET, but no state handles it: in each of the three
  states and for every context, sending RESET returns the snapshot it was sent to, so
  the state value and the context (error, lastGeneratedText) are unchanged.
\<close>

theorem reset_unhandled: "transition m (User RESET) = m"
  by (cases "svalue m") (simp_all add: transition_def)

end
